theory Spec2Isabelle
  imports Main "HOL-Library.Word"
begin

section \<open>Data model of Source.cpp\<close>

text \<open>
  The program instantiates \<^verbatim>\<open>ConcurrentHashMap<std::string, int>\<close>: keys are strings, the
  lot size is a \<^verbatim>\<open>std::atomic<int>\<close> and the price an \<^verbatim>\<open>int\<close>. Both are 32-bit two's
  complement values, read with \<open>sint\<close>. \<^verbatim>\<open>fetch_add\<close> on an atomic integer wraps around,
  which is what \<open>+\<close> on words does.
\<close>

type_synonym symbol = string
type_synonym int32 = "32 word"

record Order =
  lotSize :: int32
  price :: int32

text \<open>
  The member \<^verbatim>\<open>map_\<close> (here \<open>map_m\<close>) is an \<^verbatim>\<open>unordered_map\<close> from symbols to vectors of orders. The
  two output streams the member functions write to are part of the state. Every member
  function holds \<^verbatim>\<open>mutex_\<close> from its first statement to its return, so one call is one
  step of the state.
\<close>

record state =
  map_m :: "symbol \<rightharpoonup> Order list"
  cout :: string
  cerr :: string

definition init :: state where
  "init = \<lparr>map_m = Map.empty, cout = [], cerr = []\<rparr>"

definition endl :: string where
  "endl = [CHR 0x0A]"

section \<open>insert\<close>

text \<open>
  The range-for loop of \<^verbatim>\<open>insert\<close>: the first order with the price of the new one gets
  the new lot size added, and the loop stops there. The result is the vector after the
  loop and the flag \<^verbatim>\<open>found\<close>.
\<close>

fun insert_loop :: "Order list \<Rightarrow> Order \<Rightarrow> Order list \<times> bool" where
  "insert_loop [] order = ([], False)"
| "insert_loop (existingOrder # rest) order =
     (if price existingOrder = price order
      then (existingOrder\<lparr>lotSize := lotSize existingOrder + lotSize order\<rparr> # rest, True)
      else (case insert_loop rest order of
              (rest', found) \<Rightarrow> (existingOrder # rest', found)))"

text \<open>
  \<^verbatim>\<open>map_[symbol]\<close> creates an empty vector for a symbol that has none; the new order is
  pushed to the back when the loop has not found its price.
\<close>

definition insert_chm :: "state \<Rightarrow> symbol \<Rightarrow> Order \<Rightarrow> unit \<times> state" where
  "insert_chm st symbol order =
     (let orders = (case map_m st symbol of None \<Rightarrow> [] | Some os \<Rightarrow> os) in
      case insert_loop orders order of
        (orders', found) \<Rightarrow>
          ((), st\<lparr>map_m := (map_m st)(symbol \<mapsto>
                  (if found then orders' else orders' @ [order]))\<rparr>))"

section \<open>remove\<close>

text \<open>The function returns \<^verbatim>\<open>void\<close> on both paths; the missing symbol is written to \<^verbatim>\<open>cerr\<close>.\<close>

definition remove_chm :: "state \<Rightarrow> symbol \<Rightarrow> unit \<times> state" where
  "remove_chm st symbol =
     (case map_m st symbol of
        None \<Rightarrow>
          ((), st\<lparr>cerr := cerr st @ ''Error: Symbol '' @ symbol
                              @ '' not found for removal.'' @ endl\<rparr>)
      | Some orders \<Rightarrow> ((), st\<lparr>map_m := (map_m st)(symbol := None)\<rparr>))"

section \<open>display\<close>

fun show_nat :: "nat \<Rightarrow> string" where
  "show_nat n =
     (if n < 10 then [char_of (48 + n)]
      else show_nat (n div 10) @ [char_of (48 + n mod 10)])"

declare show_nat.simps [simp del]

definition show_int :: "int \<Rightarrow> string" where
  "show_int i = (if i < 0 then CHR ''-'' # show_nat (nat (- i)) else show_nat (nat i))"

definition show_order :: "Order \<Rightarrow> string" where
  "show_order order =
     ''{lotSize: '' @ show_int (sint (lotSize order))
       @ '', price: '' @ show_int (sint (price order)) @ ''} ''"

definition show_pair :: "symbol \<Rightarrow> Order list \<Rightarrow> string" where
  "show_pair k orders = k @ '': '' @ concat (map show_order orders) @ endl"

text \<open>
  The order in which an \<^verbatim>\<open>unordered_map\<close> is iterated is the library's choice, so it is
  an argument here: \<open>ks\<close> is the sequence of keys the iterator visits.
\<close>

definition display :: "state \<Rightarrow> symbol list \<Rightarrow> unit \<times> state" where
  "display st ks =
     ((), st\<lparr>cout := cout st @
               concat (map (\<lambda>k. case map_m st k of None \<Rightarrow> [] | Some orders \<Rightarrow> show_pair k orders)
                           ks)\<rparr>)"

section \<open>getPriceRange\<close>

text \<open>
  \<^verbatim>\<open>std::minmax_element\<close> on a non-empty range: the first of the smallest elements and the
  last of the largest, under the comparison given. On an empty range it returns the end
  iterator twice, which has no element; \<^verbatim>\<open>getPriceRange\<close> returns before calling it
  there.
\<close>

fun minmax_loop :: "('a \<Rightarrow> 'a \<Rightarrow> bool) \<Rightarrow> 'a \<times> 'a \<Rightarrow> 'a list \<Rightarrow> 'a \<times> 'a" where
  "minmax_loop cmp (mn, mx) [] = (mn, mx)"
| "minmax_loop cmp (mn, mx) (x # xs) =
     minmax_loop cmp (if cmp x mn then x else mn, if cmp x mx then mx else x) xs"

fun minmax_element :: "('a \<Rightarrow> 'a \<Rightarrow> bool) \<Rightarrow> 'a list \<Rightarrow> 'a \<times> 'a" where
  "minmax_element cmp (x # xs) = minmax_loop cmp (x, x) xs"

text \<open>The lambda of \<^verbatim>\<open>getPriceRange\<close>: \<^verbatim>\<open>a.price < b.price\<close> on \<^verbatim>\<open>int\<close>.\<close>

definition price_less :: "Order \<Rightarrow> Order \<Rightarrow> bool" where
  "price_less a b = (sint (price a) < sint (price b))"

definition getPriceRange :: "state \<Rightarrow> symbol \<Rightarrow> (int32 \<times> int32) \<times> state" where
  "getPriceRange st symbol =
     (case map_m st symbol of
        None \<Rightarrow>
          ((0, 0), st\<lparr>cerr := cerr st @ ''Error: Symbol '' @ symbol
                                  @ '' not found for price range.'' @ endl\<rparr>)
      | Some orders \<Rightarrow>
          if orders = [] then ((0, 0), st)
          else (case minmax_element price_less orders of
                  (mn, mx) \<Rightarrow> ((price mn, price mx), st)))"

section \<open>Sequences of calls\<close>

datatype call =
    Insert symbol Order
  | Remove symbol
  | Display "symbol list"
  | GetPriceRange symbol

fun exec :: "state \<Rightarrow> call \<Rightarrow> state" where
  "exec st (Insert symbol order) = snd (insert_chm st symbol order)"
| "exec st (Remove symbol) = snd (remove_chm st symbol)"
| "exec st (Display ks) = snd (display st ks)"
| "exec st (GetPriceRange symbol) = snd (getPriceRange st symbol)"

definition run :: "state \<Rightarrow> call list \<Rightarrow> state" where
  "run st calls = foldl exec st calls"

section \<open>Observations of the store\<close>

text \<open>The Book of a symbol, and its PriceLevels at one price.\<close>

definition book :: "state \<Rightarrow> symbol \<Rightarrow> Order list" where
  "book st symbol = (case map_m st symbol of None \<Rightarrow> [] | Some orders \<Rightarrow> orders)"

definition levels_at :: "state \<Rightarrow> symbol \<Rightarrow> int32 \<Rightarrow> Order list" where
  "levels_at st symbol p = filter (\<lambda>e. price e = p) (book st symbol)"

text \<open>The lot sizes that a sequence of calls inserts at one symbol and price.\<close>

fun inserted :: "symbol \<Rightarrow> int32 \<Rightarrow> call list \<Rightarrow> int32 list" where
  "inserted s p [] = []"
| "inserted s p (Insert symbol order # calls) =
     (if symbol = s \<and> price order = p then lotSize order # inserted s p calls
      else inserted s p calls)"
| "inserted s p (c # calls) = inserted s p calls"

text \<open>The calls after the last removal of a symbol: the life of its current Book.\<close>

fun since_removal :: "symbol \<Rightarrow> call list \<Rightarrow> call list" where
  "since_removal s [] = []"
| "since_removal s (c # calls) =
     (if Remove s \<in> set calls then since_removal s calls
      else if c = Remove s then calls else c # calls)"

text \<open>The quantity of the PriceLevel at a symbol and price, when there is one.\<close>

definition quantity :: "state \<Rightarrow> symbol \<Rightarrow> int32 \<Rightarrow> int32 option" where
  "quantity st symbol p =
     (case levels_at st symbol p of [] \<Rightarrow> None | e # es \<Rightarrow> Some (lotSize e))"

section \<open>The effect of one call on the Books\<close>

lemma insert_loop_found: "snd (insert_loop os order) = (price order \<in> price ` set os)"
  by (induction os) (auto split: prod.splits)

lemma insert_loop_fresh: "price order \<notin> price ` set os \<Longrightarrow> insert_loop os order = (os, False)"
  by (induction os) auto

lemma insert_loop_prices: "map price (fst (insert_loop os order)) = map price os"
  by (induction os) (auto split: prod.splits)

lemma insert_loop_filter:
  "filter (\<lambda>e. price e = p) (fst (insert_loop os order)) =
     (if p = price order
      then (case filter (\<lambda>e. price e = p) os of
              [] \<Rightarrow> []
            | e # es \<Rightarrow> e\<lparr>lotSize := lotSize e + lotSize order\<rparr> # es)
      else filter (\<lambda>e. price e = p) os)"
  by (induction os) (auto split: prod.splits)

lemma book_insert:
  "book (snd (insert_chm st s order)) s' =
     (if s' = s
      then (if price order \<in> price ` set (book st s)
            then fst (insert_loop (book st s) order)
            else book st s @ [order])
      else book st s')"
  by (auto simp: book_def insert_chm_def Let_def insert_loop_found [symmetric] insert_loop_fresh split: prod.splits option.splits)

lemma book_remove:
  "book (snd (remove_chm st s)) s' = (if s' = s then [] else book st s')"
  by (auto simp: book_def remove_chm_def split: option.splits)

lemma map_m_display: "map_m (snd (display st ks)) = map_m st"
  by (simp add: display_def)

lemma map_m_getPriceRange: "map_m (snd (getPriceRange st s)) = map_m st"
  by (simp add: getPriceRange_def split: option.splits prod.splits)

lemma filter_price_Nil: "(filter (\<lambda>e. price e = p) os = []) = (p \<notin> price ` set os)"
  by (induction os) auto

lemma levels_at_insert:
  "levels_at (snd (insert_chm st s order)) s' p =
     (if s' = s \<and> p = price order
      then (case levels_at st s p of
              [] \<Rightarrow> [order]
            | e # es \<Rightarrow> e\<lparr>lotSize := lotSize e + lotSize order\<rparr> # es)
      else levels_at st s' p)"
proof (cases "price order \<in> price ` set (book st s)")
  case True
  then have "filter (\<lambda>e. price e = price order) (book st s) \<noteq> []"
    by (simp add: filter_price_Nil)
  with True show ?thesis
    by (simp add: levels_at_def book_insert insert_loop_filter split: list.splits)
next
  case False
  then have "filter (\<lambda>e. price e = price order) (book st s) = []"
    by (simp add: filter_price_Nil)
  with False show ?thesis
    by (auto simp: levels_at_def book_insert)
qed

lemma levels_at_remove:
  "levels_at (snd (remove_chm st s)) s' p = (if s' = s then [] else levels_at st s' p)"
  by (simp add: levels_at_def book_remove)

lemma levels_at_cong: "map_m st' = map_m st \<Longrightarrow> levels_at st' s p = levels_at st s p"
  by (simp add: levels_at_def book_def)

lemma levels_at_display: "levels_at (snd (display st ks)) s p = levels_at st s p"
  by (rule levels_at_cong) (rule map_m_display)

lemma levels_at_getPriceRange: "levels_at (snd (getPriceRange st s')) s p = levels_at st s p"
  by (rule levels_at_cong) (rule map_m_getPriceRange)

lemmas levels_at_exec =
  levels_at_insert levels_at_remove levels_at_display levels_at_getPriceRange

lemma run_Nil: "run st [] = st"
  by (simp add: run_def)

lemma run_Cons: "run st (c # calls) = run (exec st c) calls"
  by (simp add: run_def)

lemma run_append: "run st (cs @ ds) = run (run st cs) ds"
  by (simp add: run_def)

lemma levels_at_init: "levels_at init s p = []"
  by (simp add: levels_at_def book_def init_def)

lemma exec_one_level:
  assumes "\<And>s p. length (levels_at st s p) \<le> 1"
  shows "length (levels_at (exec st c) s p) \<le> 1"
proof (cases c)
  case (Insert s' order)
  show ?thesis
    using assms [of s' "price order"] assms [of s p]
    by (auto simp: Insert levels_at_insert split: list.splits)
next
  case (Remove s')
  show ?thesis using assms [of s p] by (simp add: Remove levels_at_remove)
next
  case (Display ks)
  show ?thesis using assms [of s p] by (simp add: Display levels_at_display)
next
  case (GetPriceRange s')
  show ?thesis using assms [of s p] by (simp add: GetPriceRange levels_at_getPriceRange)
qed

lemma run_one_level:
  "(\<And>s p. length (levels_at st s p) \<le> 1) \<Longrightarrow> length (levels_at (run st calls) s p) \<le> 1"
proof (induction calls arbitrary: st s p)
  case Nil
  then show ?case by (simp add: run_Nil)
next
  case (Cons c calls)
  show ?case
    unfolding run_Cons
    by (rule Cons.IH) (rule exec_one_level, rule Cons.prems)
qed

section \<open>Invariant I1\<close>

text \<open>
  Claim C6 (invariant I1): in every state that a sequence of calls reaches from the empty
  store, the Book of a symbol holds at most one PriceLevel of a given price.
\<close>

theorem I1_reachable: "length (levels_at (run init calls) s p) \<le> 1"
  by (rule run_one_level) (simp add: levels_at_init)

section \<open>The price range of a Book\<close>

lemma minmax_loop_fst_mem: "fst (minmax_loop cmp (mn, mx) xs) \<in> insert mn (set xs)"
  by (induction xs arbitrary: mn mx) (auto split: if_splits)

lemma minmax_loop_snd_mem: "snd (minmax_loop cmp (mn, mx) xs) \<in> insert mx (set xs)"
  by (induction xs arbitrary: mn mx) (auto split: if_splits)

lemma minmax_loop_lower:
  "e \<in> insert mn (set xs) \<Longrightarrow>
   sint (price (fst (minmax_loop price_less (mn, mx) xs))) \<le> sint (price e)"
proof (induction xs arbitrary: mn mx e)
  case Nil
  then show ?case by simp
next
  case (Cons x xs)
  define mn' where "mn' = (if price_less x mn then x else mn)"
  define mx' where "mx' = (if price_less x mx then mx else x)"
  have step: "minmax_loop price_less (mn, mx) (x # xs) = minmax_loop price_less (mn', mx') xs"
    by (simp add: mn'_def mx'_def)
  show ?case
  proof (cases "e \<in> set xs")
    case True
    then show ?thesis unfolding step by (intro Cons.IH) simp
  next
    case False
    with Cons.prems have "e = mn \<or> e = x" by auto
    then have "sint (price mn') \<le> sint (price e)"
      by (auto simp: mn'_def price_less_def)
    moreover have "sint (price (fst (minmax_loop price_less (mn', mx') xs))) \<le> sint (price mn')"
      by (intro Cons.IH) simp
    ultimately show ?thesis unfolding step by (rule order_trans [rotated])
  qed
qed

lemma minmax_loop_upper:
  "e \<in> insert mx (set xs) \<Longrightarrow>
   sint (price e) \<le> sint (price (snd (minmax_loop price_less (mn, mx) xs)))"
proof (induction xs arbitrary: mn mx e)
  case Nil
  then show ?case by simp
next
  case (Cons x xs)
  define mn' where "mn' = (if price_less x mn then x else mn)"
  define mx' where "mx' = (if price_less x mx then mx else x)"
  have step: "minmax_loop price_less (mn, mx) (x # xs) = minmax_loop price_less (mn', mx') xs"
    by (simp add: mn'_def mx'_def)
  show ?case
  proof (cases "e \<in> set xs")
    case True
    then show ?thesis unfolding step by (intro Cons.IH) simp
  next
    case False
    with Cons.prems have "e = mx \<or> e = x" by auto
    then have "sint (price e) \<le> sint (price mx')"
      by (auto simp: mx'_def price_less_def)
    moreover have "sint (price mx') \<le> sint (price (snd (minmax_loop price_less (mn', mx') xs)))"
      by (intro Cons.IH) simp
    ultimately show ?thesis unfolding step by (rule order_trans)
  qed
qed

lemma minmax_element_Min:
  assumes "os \<noteq> []"
  shows "sint (price (fst (minmax_element price_less os))) = Min (sint ` price ` set os)"
proof -
  from assms obtain x xs where os: "os = x # xs" by (cases os) auto
  have "fst (minmax_loop price_less (x, x) xs) \<in> set os"
    using minmax_loop_fst_mem [of price_less x x xs] by (simp add: os)
  moreover have "sint (price (fst (minmax_loop price_less (x, x) xs))) \<le> sint (price e)"
    if "e \<in> set os" for e
    using that by (intro minmax_loop_lower) (simp add: os)
  ultimately show ?thesis
    by (intro Min_eqI [symmetric]) (auto simp: os)
qed

lemma minmax_element_Max:
  assumes "os \<noteq> []"
  shows "sint (price (snd (minmax_element price_less os))) = Max (sint ` price ` set os)"
proof -
  from assms obtain x xs where os: "os = x # xs" by (cases os) auto
  have "snd (minmax_loop price_less (x, x) xs) \<in> set os"
    using minmax_loop_snd_mem [of price_less x x xs] by (simp add: os)
  moreover have "sint (price e) \<le> sint (price (snd (minmax_loop price_less (x, x) xs)))"
    if "e \<in> set os" for e
    using that by (intro minmax_loop_upper) (simp add: os)
  ultimately show ?thesis
    by (intro Max_eqI [symmetric]) (auto simp: os)
qed

lemma getPriceRange_present:
  "book st s \<noteq> [] \<Longrightarrow>
   getPriceRange st s =
     ((price (fst (minmax_element price_less (book st s))),
       price (snd (minmax_element price_less (book st s)))), st)"
  by (auto simp: getPriceRange_def book_def split: option.splits prod.splits)

lemma getPriceRange_Min_Max:
  assumes "book st s \<noteq> []"
  shows "sint (fst (fst (getPriceRange st s))) = Min (sint ` price ` set (book st s))"
    and "sint (snd (fst (getPriceRange st s))) = Max (sint ` price ` set (book st s))"
    and "snd (getPriceRange st s) = st"
  using assms
  by (simp_all add: getPriceRange_present minmax_element_Min minmax_element_Max)

section \<open>The paths for a symbol without a Book\<close>

lemma getPriceRange_absent:
  "map_m st s = None \<Longrightarrow>
   getPriceRange st s =
     ((0, 0), st\<lparr>cerr := cerr st @ ''Error: Symbol '' @ s @ '' not found for price range.'' @ endl\<rparr>)"
  by (simp add: getPriceRange_def)

lemma getPriceRange_empty: "map_m st s = Some [] \<Longrightarrow> getPriceRange st s = ((0, 0), st)"
  by (simp add: getPriceRange_def)

lemma remove_chm_absent:
  "map_m st s = None \<Longrightarrow>
   remove_chm st s =
     ((), st\<lparr>cerr := cerr st @ ''Error: Symbol '' @ s @ '' not found for removal.'' @ endl\<rparr>)"
  by (simp add: remove_chm_def)

lemma map_m_insert_remove: "map_m (snd (remove_chm (snd (insert_chm st s order)) s)) s = None"
  by (simp add: remove_chm_def insert_chm_def Let_def split: prod.splits)

text \<open>
  Claim C1, as the code has it: for a symbol that has no Book, and for a symbol whose Book
  is empty, \<^verbatim>\<open>getPriceRange\<close> returns the pair \<open>(0, 0)\<close> and leaves the map alone. For
  the symbol without a Book it writes one line to \<^verbatim>\<open>cerr\<close>; for the empty Book it writes
  nothing.
\<close>

theorem priceRange_no_book:
  "book st s = [] \<Longrightarrow>
   fst (getPriceRange st s) = (0, 0) \<and>
   map_m (snd (getPriceRange st s)) = map_m st \<and>
   cout (snd (getPriceRange st s)) = cout st \<and>
   cerr (snd (getPriceRange st s)) =
     (if map_m st s = None
      then cerr st @ ''Error: Symbol '' @ s @ '' not found for price range.'' @ endl
      else cerr st)"
  by (auto simp: book_def getPriceRange_def split: option.splits)

theorem priceRange_no_book_witness:
  "book init ''TCS'' = [] \<and>
   fst (getPriceRange init ''TCS'') = (0, 0) \<and>
   cerr (snd (getPriceRange init ''TCS'')) = ''Error: Symbol TCS not found for price range.'' @ endl"
  using priceRange_no_book [of init "''TCS''"]
  by (simp add: book_def init_def)

text \<open>
  Claim C1 as stated says that \<open>(0, 0)\<close> is never returned for such a symbol. On the
  empty store the call returns exactly that pair.
\<close>

theorem priceRange_sentinel_counterexample:
  "fst (getPriceRange init ''TCS'') = (0, 0)"
  by (simp add: getPriceRange_def init_def)

text \<open>
  Claim C2, as the code has it: \<^verbatim>\<open>remove\<close> of a symbol that has no Book returns nothing
  (\<^verbatim>\<open>void\<close>), writes one line to \<^verbatim>\<open>cerr\<close> and changes nothing else.
\<close>

theorem remove_no_book:
  "map_m st s = None \<Longrightarrow>
   remove_chm st s =
     ((), st\<lparr>cerr := cerr st @ ''Error: Symbol '' @ s @ '' not found for removal.'' @ endl\<rparr>)"
  by (simp add: remove_chm_def)

theorem remove_no_book_witness:
  "map_m init ''TCS'' = None \<and>
   remove_chm init ''TCS'' =
     ((), \<lparr>map_m = Map.empty, cout = [], cerr = ''Error: Symbol TCS not found for removal.'' @ endl\<rparr>)"
  using remove_no_book [of init "''TCS''"]
  by (simp add: init_def)

text \<open>
  Claim C2 as stated asks for a result value that tells the caller the symbol was missing.
  The value returned for a missing symbol is the value returned after a successful
  removal.
\<close>

theorem remove_silent_counterexample:
  "map_m init ''TCS'' = None \<and>
   map_m (snd (insert_chm init ''TCS'' \<lparr>lotSize = 10, price = 2\<rparr>)) ''TCS''
     = Some [\<lparr>lotSize = 10, price = 2\<rparr>] \<and>
   fst (remove_chm init ''TCS'')
     = fst (remove_chm (snd (insert_chm init ''TCS'' \<lparr>lotSize = 10, price = 2\<rparr>)) ''TCS'')"
  by (simp add: init_def insert_chm_def)

text \<open>
  Claim C5, as the code has it: after an insert at a symbol and the removal of that symbol,
  the symbol has no Book; \<^verbatim>\<open>getPriceRange\<close> then returns \<open>(0, 0)\<close> and \<^verbatim>\<open>remove\<close>
  returns nothing, and each of them only adds its error line to \<^verbatim>\<open>cerr\<close>.
\<close>

theorem removal_terminal:
  "map_m (run st [Insert s order, Remove s]) s = None \<and>
   getPriceRange (run st [Insert s order, Remove s]) s =
     ((0, 0), (run st [Insert s order, Remove s])
                \<lparr>cerr := cerr (run st [Insert s order, Remove s])
                          @ ''Error: Symbol '' @ s @ '' not found for price range.'' @ endl\<rparr>) \<and>
   remove_chm (run st [Insert s order, Remove s]) s =
     ((), (run st [Insert s order, Remove s])
            \<lparr>cerr := cerr (run st [Insert s order, Remove s])
                      @ ''Error: Symbol '' @ s @ '' not found for removal.'' @ endl\<rparr>)"
proof -
  have absent: "map_m (run st [Insert s order, Remove s]) s = None"
    by (simp add: run_Cons run_Nil map_m_insert_remove)
  show ?thesis
    using absent getPriceRange_absent [OF absent] remove_chm_absent [OF absent] by simp
qed

text \<open>
  Claim C5 as stated asks for a NotFound outcome. What \<^verbatim>\<open>getPriceRange\<close> returns after
  the removal is what it returns for a Book whose only price is 0.
\<close>

theorem removal_terminal_counterexample:
  "fst (getPriceRange (run init [Insert ''TCS'' \<lparr>lotSize = 10, price = 2\<rparr>, Remove ''TCS'']) ''TCS'')
     = fst (getPriceRange (run init [Insert ''TCS'' \<lparr>lotSize = 10, price = 0\<rparr>]) ''TCS'') \<and>
   book (run init [Insert ''TCS'' \<lparr>lotSize = 10, price = 0\<rparr>]) ''TCS'' = [\<lparr>lotSize = 10, price = 0\<rparr>] \<and>
   book (run init [Insert ''TCS'' \<lparr>lotSize = 10, price = 2\<rparr>, Remove ''TCS'']) ''TCS'' = []"
  by (simp add: run_def init_def insert_chm_def remove_chm_def getPriceRange_def book_def price_less_def)

text \<open>
  Claim C9: \<^verbatim>\<open>getPriceRange\<close> and \<^verbatim>\<open>display\<close> leave the map as it is in every state, and
  so does \<^verbatim>\<open>remove\<close> of a symbol that has no Book.
\<close>

theorem queries_frame:
  "map_m (snd (getPriceRange st s)) = map_m st \<and>
   map_m (snd (display st ks)) = map_m st \<and>
   (map_m st s = None \<longrightarrow> map_m (snd (remove_chm st s)) = map_m st)"
  by (simp add: map_m_getPriceRange map_m_display remove_chm_def)

theorem queries_frame_witness:
  "map_m init ''TCS'' = None \<and> map_m (snd (remove_chm init ''TCS'')) = map_m init"
  using queries_frame [of init "''TCS''" "[]"]
  by (simp add: init_def)

section \<open>Aggregation of lot sizes\<close>

text \<open>Addition of 32-bit lot sizes is the addition of integers as long as the sum fits.\<close>

lemma sint_add_no_wrap:
  "- (2 ^ 31) \<le> sint a + sint b \<Longrightarrow> sint a + sint b < 2 ^ 31 \<Longrightarrow>
   sint (a + b :: int32) = sint a + sint b"
  by (simp add: sint_word_ariths signed_take_bit_int_eq_self)

lemma sint_sum_list:
  "\<forall>q\<in>set qs. 0 \<le> sint q \<Longrightarrow> sum_list (map sint qs) < 2 ^ 31 \<Longrightarrow>
   sint (sum_list qs :: int32) = sum_list (map sint qs)"
proof (induction qs)
  case Nil
  then show ?case by simp
next
  case (Cons q qs)
  have nonneg: "0 \<le> sum_list (map sint qs)"
    using Cons.prems(1) by (intro sum_list_nonneg) auto
  have q: "0 \<le> sint q"
    using Cons.prems(1) by simp
  have rest: "sint (sum_list qs) = sum_list (map sint qs)"
    using Cons.prems q by (intro Cons.IH) auto
  have "sint (q + sum_list qs) = sint q + sint (sum_list qs)"
    using Cons.prems(2) q nonneg by (intro sint_add_no_wrap) (simp_all add: rest)
  then show ?case by (simp add: rest)
qed

text \<open>The levels at one symbol and price after a sequence of calls that never removes the symbol.\<close>

lemma Order_lotSize_update: "order\<lparr>lotSize := q\<rparr> = \<lparr>lotSize = q, price = price order\<rparr>"
  by (cases order) simp

lemma levels_at_exec_other:
  "c \<noteq> Remove s \<Longrightarrow> (\<And>order. c \<noteq> Insert s order \<or> price order \<noteq> p) \<Longrightarrow>
   levels_at (exec st c) s p = levels_at st s p"
  by (cases c) (auto simp: levels_at_exec)

lemma run_levels_at:
  "Remove s \<notin> set calls \<Longrightarrow>
   levels_at (run st calls) s p =
     (case levels_at st s p of
        [] \<Rightarrow> (if inserted s p calls = [] then []
               else [\<lparr>lotSize = sum_list (inserted s p calls), price = p\<rparr>])
      | e # es \<Rightarrow> e\<lparr>lotSize := lotSize e + sum_list (inserted s p calls)\<rparr> # es)"
proof (induction calls arbitrary: st)
  case Nil
  then show ?case by (simp add: run_Nil split: list.splits)
next
  case (Cons c calls)
  have rest: "Remove s \<notin> set calls" and c: "c \<noteq> Remove s"
    using Cons.prems by auto
  show ?case
  proof (cases "\<exists>order. c = Insert s order \<and> price order = p")
    case True
    then obtain order where ins: "c = Insert s order" and p: "price order = p" by blast
    show ?thesis
    proof (cases "levels_at st s p")
      case Nil
      then have "levels_at (exec st c) s p = [order]"
        by (simp add: ins p [symmetric] levels_at_insert)
      then show ?thesis
        using p by (simp add: run_Cons Cons.IH [OF rest] ins Nil Order_lotSize_update)
    next
      case (Cons e es)
      then have "levels_at (exec st c) s p = e\<lparr>lotSize := lotSize e + lotSize order\<rparr> # es"
        by (simp add: ins p [symmetric] levels_at_insert)
      then show ?thesis
        using p by (simp add: run_Cons Cons.IH [OF rest] ins Cons add.assoc)
    qed
  next
    case False
    then have same: "levels_at (exec st c) s p = levels_at st s p"
      using c by (intro levels_at_exec_other) auto
    have skip: "inserted s p (c # calls) = inserted s p calls"
      using False by (cases c) auto
    show ?thesis
      unfolding run_Cons Cons.IH [OF rest] same skip ..
  qed
qed

text \<open>From the empty store, only the calls after the last removal of the symbol count.\<close>

lemma since_removal_none: "Remove s \<notin> set calls \<Longrightarrow> since_removal s calls = calls"
  by (cases calls) auto

lemma since_removal_no_Remove: "Remove s \<notin> set (since_removal s calls)"
  by (induction calls) auto

lemma since_removal_split:
  "Remove s \<in> set calls \<Longrightarrow> \<exists>pre. calls = pre @ Remove s # since_removal s calls"
proof (induction calls)
  case Nil
  then show ?case by simp
next
  case (Cons c calls)
  show ?case
  proof (cases "Remove s \<in> set calls")
    case True
    with Cons.IH obtain pre where "calls = pre @ Remove s # since_removal s calls" by blast
    then have "c # calls = (c # pre) @ Remove s # since_removal s (c # calls)"
      using True by simp
    then show ?thesis by blast
  next
    case False
    with Cons.prems have "c = Remove s" by simp
    then have "c # calls = [] @ Remove s # since_removal s (c # calls)"
      using False by simp
    then show ?thesis by blast
  qed
qed

lemma levels_at_run_init:
  "levels_at (run init calls) s p =
     (if inserted s p (since_removal s calls) = [] then []
      else [\<lparr>lotSize = sum_list (inserted s p (since_removal s calls)), price = p\<rparr>])"
proof (cases "Remove s \<in> set calls")
  case True
  then obtain pre where split: "calls = pre @ Remove s # since_removal s calls"
    using since_removal_split by blast
  define st where "st = exec (run init pre) (Remove s)"
  have "levels_at st s p = []"
    by (simp add: st_def levels_at_remove)
  moreover have "run init calls = run st (since_removal s calls)"
    by (subst split) (simp add: run_append run_Cons st_def)
  ultimately show ?thesis
    by (simp add: run_levels_at [OF since_removal_no_Remove])
next
  case False
  then show ?thesis
    by (simp add: since_removal_none run_levels_at levels_at_init)
qed

lemma quantity_levels_at:
  "quantity st s p = (case levels_at st s p of [] \<Rightarrow> None | e # es \<Rightarrow> Some (lotSize e))"
  by (simp add: quantity_def)

text \<open>
  Claim C3, as the code has it: take a store with no PriceLevel at symbol \<open>s\<close> and price
  \<open>p\<close>, and a sequence of calls that never removes \<open>s\<close> and inserts at least once at
  \<open>(s, p)\<close>. Afterwards the store holds exactly one PriceLevel at \<open>(s, p)\<close>, and its
  quantity is the sum of the inserted quantities in 32-bit arithmetic. When the quantities
  are non-negative and their sum is below \<open>2^31\<close>, that is their sum as integers.
\<close>

theorem aggregation:
  assumes "Remove s \<notin> set calls"
    and "levels_at st s p = []"
    and "inserted s p calls \<noteq> []"
  shows "levels_at (run st calls) s p = [\<lparr>lotSize = sum_list (inserted s p calls), price = p\<rparr>] \<and>
    ((\<forall>q\<in>set (inserted s p calls). 0 \<le> sint q) \<and>
       sum_list (map sint (inserted s p calls)) < 2 ^ 31 \<longrightarrow>
     map (\<lambda>e. sint (lotSize e)) (levels_at (run st calls) s p)
       = [sum_list (map sint (inserted s p calls))])"
  using assms by (simp add: run_levels_at sint_sum_list)

theorem aggregation_witness:
  "Remove ''TCS'' \<notin> set [Insert ''TCS'' \<lparr>lotSize = 10, price = 2\<rparr>, Insert ''INFY'' \<lparr>lotSize = 7, price = 2\<rparr>,
       Remove ''INFY'', Insert ''TCS'' \<lparr>lotSize = 20, price = 2\<rparr>] \<and>
   levels_at init ''TCS'' 2 = [] \<and>
   inserted ''TCS'' 2 [Insert ''TCS'' \<lparr>lotSize = 10, price = 2\<rparr>, Insert ''INFY'' \<lparr>lotSize = 7, price = 2\<rparr>,
       Remove ''INFY'', Insert ''TCS'' \<lparr>lotSize = 20, price = 2\<rparr>] = [10, 20] \<and>
   levels_at (run init [Insert ''TCS'' \<lparr>lotSize = 10, price = 2\<rparr>, Insert ''INFY'' \<lparr>lotSize = 7, price = 2\<rparr>,
       Remove ''INFY'', Insert ''TCS'' \<lparr>lotSize = 20, price = 2\<rparr>]) ''TCS'' 2 = [\<lparr>lotSize = 30, price = 2\<rparr>] \<and>
   map (\<lambda>e. sint (lotSize e))
     (levels_at (run init [Insert ''TCS'' \<lparr>lotSize = 10, price = 2\<rparr>, Insert ''INFY'' \<lparr>lotSize = 7, price = 2\<rparr>,
       Remove ''INFY'', Insert ''TCS'' \<lparr>lotSize = 20, price = 2\<rparr>]) ''TCS'' 2) = [30]"
  using aggregation [of "''TCS''"
      "[Insert ''TCS'' \<lparr>lotSize = 10, price = 2\<rparr>, Insert ''INFY'' \<lparr>lotSize = 7, price = 2\<rparr>,
        Remove ''INFY'', Insert ''TCS'' \<lparr>lotSize = 20, price = 2\<rparr>]" init 2]
  by (simp add: levels_at_init)

text \<open>
  Claim C3 as stated has no bound on the quantities. Two inserts of 2147483647 and 1 at the
  same symbol and price leave one PriceLevel whose quantity is -2147483648, not the sum.
\<close>

theorem aggregation_counterexample:
  "0 \<le> sint (2147483647 :: int32) \<and> 0 \<le> sint (1 :: int32) \<and>
   levels_at (run init [Insert ''TCS'' \<lparr>lotSize = 2147483647, price = 2\<rparr>,
                        Insert ''TCS'' \<lparr>lotSize = 1, price = 2\<rparr>]) ''TCS'' 2
     = [\<lparr>lotSize = - 2147483648, price = 2\<rparr>] \<and>
   sint (- 2147483648 :: int32) \<noteq> sint (2147483647 :: int32) + sint (1 :: int32)"
  by (simp add: run_def init_def insert_chm_def levels_at_def book_def)

text \<open>
  Claim C7 (invariant I2), as the code has it. In a state reached from the empty store,
  the quantity at a symbol and price is the sum, in 32-bit arithmetic, of the quantities
  inserted there since the last removal of the symbol, and there is no PriceLevel when
  nothing was inserted since; when those quantities are non-negative and their sum is
  below \<open>2^31\<close>, it is their sum as integers. In any state, a call other than the removal
  of the symbol keeps the PriceLevel and does not decrease its quantity, provided that an
  insert at this symbol and price has a non-negative quantity and the new total stays
  below \<open>2^31\<close>.
\<close>

theorem quantity_sum_monotone:
  "quantity (run init calls) s p =
     (if inserted s p (since_removal s calls) = [] then None
      else Some (sum_list (inserted s p (since_removal s calls)))) \<and>
   ((\<forall>q\<in>set (inserted s p (since_removal s calls)). 0 \<le> sint q) \<and>
      sum_list (map sint (inserted s p (since_removal s calls))) < 2 ^ 31 \<and>
      inserted s p (since_removal s calls) \<noteq> [] \<longrightarrow>
    map_option sint (quantity (run init calls) s p)
      = Some (sum_list (map sint (inserted s p (since_removal s calls))))) \<and>
   (quantity st s p = Some q \<and> c \<noteq> Remove s \<and>
      (\<forall>order. c = Insert s order \<and> price order = p \<longrightarrow>
         0 \<le> sint (lotSize order) \<and> sint q + sint (lotSize order) < 2 ^ 31) \<longrightarrow>
    (\<exists>q'. quantity (exec st c) s p = Some q' \<and> sint q \<le> sint q'))"
proof (intro conjI impI)
  show total: "quantity (run init calls) s p =
     (if inserted s p (since_removal s calls) = [] then None
      else Some (sum_list (inserted s p (since_removal s calls))))"
    by (simp add: quantity_levels_at levels_at_run_init)
  show "map_option sint (quantity (run init calls) s p)
      = Some (sum_list (map sint (inserted s p (since_removal s calls))))"
    if "(\<forall>q\<in>set (inserted s p (since_removal s calls)). 0 \<le> sint q) \<and>
      sum_list (map sint (inserted s p (since_removal s calls))) < 2 ^ 31 \<and>
      inserted s p (since_removal s calls) \<noteq> []"
    using that by (simp add: total sint_sum_list)
  show "\<exists>q'. quantity (exec st c) s p = Some q' \<and> sint q \<le> sint q'"
    if h: "quantity st s p = Some q \<and> c \<noteq> Remove s \<and>
      (\<forall>order. c = Insert s order \<and> price order = p \<longrightarrow>
         0 \<le> sint (lotSize order) \<and> sint q + sint (lotSize order) < 2 ^ 31)"
  proof (cases "\<exists>order. c = Insert s order \<and> price order = p")
    case True
    then obtain order where ins: "c = Insert s order" and p: "price order = p" by blast
    from h ins p have fit: "0 \<le> sint (lotSize order)" "sint q + sint (lotSize order) < 2 ^ 31"
      by auto
    from h obtain e es where e: "levels_at st s p = e # es" "lotSize e = q"
      by (auto simp: quantity_levels_at split: list.splits)
    have "quantity (exec st c) s p = Some (q + lotSize order)"
      using e by (simp add: quantity_levels_at ins p [symmetric] levels_at_insert)
    moreover have "sint (q + lotSize order) = sint q + sint (lotSize order)"
      using fit sint_ge [of q] by (intro sint_add_no_wrap) simp_all
    ultimately show ?thesis using fit by simp
  next
    case False
    then have "levels_at (exec st c) s p = levels_at st s p"
      using h by (intro levels_at_exec_other) auto
    then show ?thesis using h by (simp add: quantity_levels_at)
  qed
qed

theorem quantity_sum_monotone_witness:
  "quantity (run init [Insert ''TCS'' \<lparr>lotSize = 10, price = 2\<rparr>, Remove ''TCS'',
                       Insert ''TCS'' \<lparr>lotSize = 5, price = 2\<rparr>, Insert ''TCS'' \<lparr>lotSize = 7, price = 2\<rparr>])
      ''TCS'' 2 = Some 12 \<and>
   inserted ''TCS'' 2 (since_removal ''TCS'' [Insert ''TCS'' \<lparr>lotSize = 10, price = 2\<rparr>, Remove ''TCS'',
                       Insert ''TCS'' \<lparr>lotSize = 5, price = 2\<rparr>, Insert ''TCS'' \<lparr>lotSize = 7, price = 2\<rparr>])
     = [5, 7] \<and>
   quantity (run init [Insert ''TCS'' \<lparr>lotSize = 12, price = 2\<rparr>]) ''TCS'' 2 = Some 12 \<and>
   quantity (exec (run init [Insert ''TCS'' \<lparr>lotSize = 12, price = 2\<rparr>])
               (Insert ''TCS'' \<lparr>lotSize = 3, price = 2\<rparr>)) ''TCS'' 2 = Some 15"
proof -
  have q: "quantity (run init [Insert ''TCS'' \<lparr>lotSize = 12, price = 2\<rparr>]) ''TCS'' 2 = Some 12"
    by (simp add: run_def init_def insert_chm_def quantity_def levels_at_def book_def)
  have q': "quantity (exec (run init [Insert ''TCS'' \<lparr>lotSize = 12, price = 2\<rparr>])
               (Insert ''TCS'' \<lparr>lotSize = 3, price = 2\<rparr>)) ''TCS'' 2 = Some 15"
    by (simp add: run_def init_def insert_chm_def quantity_def levels_at_def book_def)
  show ?thesis
    using quantity_sum_monotone [of
        "[Insert ''TCS'' \<lparr>lotSize = 10, price = 2\<rparr>, Remove ''TCS'',
          Insert ''TCS'' \<lparr>lotSize = 5, price = 2\<rparr>, Insert ''TCS'' \<lparr>lotSize = 7, price = 2\<rparr>]"
        "''TCS''" 2 "run init [Insert ''TCS'' \<lparr>lotSize = 12, price = 2\<rparr>]" 12
        "Insert ''TCS'' \<lparr>lotSize = 3, price = 2\<rparr>"] q q'
    by simp
qed

text \<open>
  Claim C7 as stated lets no insert of a non-negative quantity decrease a PriceLevel. The
  insert of quantity 1 on a PriceLevel holding 2147483647 leaves it at -2147483648.
\<close>

theorem quantity_monotone_counterexample:
  "0 \<le> sint (2147483647 :: int32) \<and> 0 \<le> sint (1 :: int32) \<and>
   quantity (run init [Insert ''TCS'' \<lparr>lotSize = 2147483647, price = 2\<rparr>]) ''TCS'' 2
     = Some 2147483647 \<and>
   quantity (run init [Insert ''TCS'' \<lparr>lotSize = 2147483647, price = 2\<rparr>,
                       Insert ''TCS'' \<lparr>lotSize = 1, price = 2\<rparr>]) ''TCS'' 2
     = Some (- 2147483648) \<and>
   sint (- 2147483648 :: int32) < sint (2147483647 :: int32)"
  by (simp add: run_def init_def insert_chm_def quantity_def levels_at_def book_def)

section \<open>Distinct prices and the price range\<close>

lemma book_insert_fresh:
  "price order \<notin> price ` set (book st s) \<Longrightarrow>
   book (exec st (Insert s order)) s = book st s @ [order]"
  by (simp add: book_insert)

text \<open>
  Claim C4: an insert at a price that the Book of the symbol does not hold appends a new
  PriceLevel and leaves the others as they are; for a symbol with a non-empty Book,
  \<^verbatim>\<open>getPriceRange\<close> returns the smallest and the largest price of the Book; and after
  the inserts of quantity 10 at price 2 and quantity 20 at price 5 the Book holds these two
  levels and the range is \<open>(2, 5)\<close>.
\<close>

theorem separate_levels_and_range:
  "(price order \<notin> price ` set (book st s) \<longrightarrow>
      book (exec st (Insert s order)) s = book st s @ [order]) \<and>
   (book st s \<noteq> [] \<longrightarrow>
      sint (fst (fst (getPriceRange st s))) = Min (sint ` price ` set (book st s)) \<and>
      sint (snd (fst (getPriceRange st s))) = Max (sint ` price ` set (book st s))) \<and>
   book (run init [Insert ''S'' \<lparr>lotSize = 10, price = 2\<rparr>, Insert ''S'' \<lparr>lotSize = 20, price = 5\<rparr>]) ''S''
     = [\<lparr>lotSize = 10, price = 2\<rparr>, \<lparr>lotSize = 20, price = 5\<rparr>] \<and>
   fst (getPriceRange
          (run init [Insert ''S'' \<lparr>lotSize = 10, price = 2\<rparr>, Insert ''S'' \<lparr>lotSize = 20, price = 5\<rparr>])
          ''S'') = (2, 5)"
proof (intro conjI impI)
  show "book (exec st (Insert s order)) s = book st s @ [order]"
    if "price order \<notin> price ` set (book st s)"
    using that by (rule book_insert_fresh)
  show "sint (fst (fst (getPriceRange st s))) = Min (sint ` price ` set (book st s))"
    if "book st s \<noteq> []"
    using that by (rule getPriceRange_Min_Max)
  show "sint (snd (fst (getPriceRange st s))) = Max (sint ` price ` set (book st s))"
    if "book st s \<noteq> []"
    using that by (rule getPriceRange_Min_Max)
  have two: "run init [Insert ''S'' \<lparr>lotSize = 10, price = 2\<rparr>, Insert ''S'' \<lparr>lotSize = 20, price = 5\<rparr>]
      = \<lparr>map_m = [''S'' \<mapsto> [\<lparr>lotSize = 10, price = 2\<rparr>, \<lparr>lotSize = 20, price = 5\<rparr>]],
         cout = [], cerr = []\<rparr>"
    by (simp add: run_def init_def insert_chm_def)
  show "book (run init [Insert ''S'' \<lparr>lotSize = 10, price = 2\<rparr>, Insert ''S'' \<lparr>lotSize = 20, price = 5\<rparr>]) ''S''
     = [\<lparr>lotSize = 10, price = 2\<rparr>, \<lparr>lotSize = 20, price = 5\<rparr>]"
    by (simp add: two book_def)
  show "fst (getPriceRange
          (run init [Insert ''S'' \<lparr>lotSize = 10, price = 2\<rparr>, Insert ''S'' \<lparr>lotSize = 20, price = 5\<rparr>])
          ''S'') = (2, 5)"
    by (simp add: two getPriceRange_def price_less_def)
qed

theorem separate_levels_and_range_witness:
  "price \<lparr>lotSize = 30, price = - 1\<rparr>
     \<notin> price ` set (book (run init [Insert ''S'' \<lparr>lotSize = 10, price = 2\<rparr>, Insert ''S'' \<lparr>lotSize = 20, price = 5\<rparr>]) ''S'') \<and>
   book (exec (run init [Insert ''S'' \<lparr>lotSize = 10, price = 2\<rparr>, Insert ''S'' \<lparr>lotSize = 20, price = 5\<rparr>])
           (Insert ''S'' \<lparr>lotSize = 30, price = - 1\<rparr>)) ''S''
     = [\<lparr>lotSize = 10, price = 2\<rparr>, \<lparr>lotSize = 20, price = 5\<rparr>, \<lparr>lotSize = 30, price = - 1\<rparr>] \<and>
   book (run init [Insert ''S'' \<lparr>lotSize = 10, price = 2\<rparr>, Insert ''S'' \<lparr>lotSize = 20, price = 5\<rparr>]) ''S'' \<noteq> [] \<and>
   sint (fst (fst (getPriceRange
          (run init [Insert ''S'' \<lparr>lotSize = 10, price = 2\<rparr>, Insert ''S'' \<lparr>lotSize = 20, price = 5\<rparr>]) ''S''))) = 2 \<and>
   sint (snd (fst (getPriceRange
          (run init [Insert ''S'' \<lparr>lotSize = 10, price = 2\<rparr>, Insert ''S'' \<lparr>lotSize = 20, price = 5\<rparr>]) ''S''))) = 5"
proof -
  have two: "book (run init [Insert ''S'' \<lparr>lotSize = 10, price = 2\<rparr>, Insert ''S'' \<lparr>lotSize = 20, price = 5\<rparr>]) ''S''
     = [\<lparr>lotSize = 10, price = 2\<rparr>, \<lparr>lotSize = 20, price = 5\<rparr>]"
    by (simp add: run_def init_def insert_chm_def book_def)
  show ?thesis
    using separate_levels_and_range [of "\<lparr>lotSize = 30, price = - 1\<rparr>"
        "run init [Insert ''S'' \<lparr>lotSize = 10, price = 2\<rparr>, Insert ''S'' \<lparr>lotSize = 20, price = 5\<rparr>]" "''S''"]
    by (simp add: two)
qed

text \<open>
  Claim C10: an insert of quantity 0 at a symbol and price that have no PriceLevel creates
  one holding 0, and the price lies within the range \<^verbatim>\<open>getPriceRange\<close> then returns. For
  a symbol whose PriceLevels are all at price 0 the range is \<open>(0, 0)\<close>, which is also
  what the call returns for a symbol without a Book.
\<close>

theorem zero_quantity_zero_price:
  "(levels_at st s p = [] \<longrightarrow>
      levels_at (exec st (Insert s \<lparr>lotSize = 0, price = p\<rparr>)) s p = [\<lparr>lotSize = 0, price = p\<rparr>] \<and>
      sint (fst (fst (getPriceRange (exec st (Insert s \<lparr>lotSize = 0, price = p\<rparr>)) s))) \<le> sint p \<and>
      sint p \<le> sint (snd (fst (getPriceRange (exec st (Insert s \<lparr>lotSize = 0, price = p\<rparr>)) s)))) \<and>
   (price ` set (book st2 s2) = {0} \<and> map_m st2 s3 = None \<longrightarrow>
      fst (getPriceRange st2 s2) = (0, 0) \<and>
      fst (getPriceRange st2 s3) = fst (getPriceRange st2 s2))"
proof (intro conjI impI)
  define st' where "st' = exec st (Insert s \<lparr>lotSize = 0, price = p\<rparr>)"
  assume fresh: "levels_at st s p = []"
  then show level: "levels_at (exec st (Insert s \<lparr>lotSize = 0, price = p\<rparr>)) s p = [\<lparr>lotSize = 0, price = p\<rparr>]"
    by (simp add: levels_at_insert)
  then have "\<lparr>lotSize = 0, price = p\<rparr> \<in> set (levels_at st' s p)"
    by (simp add: st'_def)
  then have "\<lparr>lotSize = 0, price = p\<rparr> \<in> set (book st' s)"
    by (simp add: levels_at_def)
  then have mem: "sint p \<in> sint ` price ` set (book st' s)" and ne: "book st' s \<noteq> []"
    by force+
  show "sint (fst (fst (getPriceRange (exec st (Insert s \<lparr>lotSize = 0, price = p\<rparr>)) s))) \<le> sint p"
    using mem getPriceRange_Min_Max(1) [OF ne] unfolding st'_def by simp
  show "sint p \<le> sint (snd (fst (getPriceRange (exec st (Insert s \<lparr>lotSize = 0, price = p\<rparr>)) s)))"
    using mem getPriceRange_Min_Max(2) [OF ne] unfolding st'_def by simp
next
  assume h: "price ` set (book st2 s2) = {0} \<and> map_m st2 s3 = None"
  then have ne: "book st2 s2 \<noteq> []" by auto
  have "sint (fst (fst (getPriceRange st2 s2))) = 0" "sint (snd (fst (getPriceRange st2 s2))) = 0"
    using h getPriceRange_Min_Max(1,2) [OF ne] by simp_all
  then show zero_range: "fst (getPriceRange st2 s2) = (0, 0)"
    by (simp add: prod_eq_iff signed_eq_0_iff)
  show "fst (getPriceRange st2 s3) = fst (getPriceRange st2 s2)"
    using h by (simp add: zero_range getPriceRange_absent)
qed

theorem zero_quantity_zero_price_witness:
  "levels_at init ''TCS'' 0 = [] \<and>
   levels_at (exec init (Insert ''TCS'' \<lparr>lotSize = 0, price = 0\<rparr>)) ''TCS'' 0 = [\<lparr>lotSize = 0, price = 0\<rparr>] \<and>
   price ` set (book (exec init (Insert ''TCS'' \<lparr>lotSize = 0, price = 0\<rparr>)) ''TCS'') = {0} \<and>
   map_m (exec init (Insert ''TCS'' \<lparr>lotSize = 0, price = 0\<rparr>)) ''INFY'' = None \<and>
   fst (getPriceRange (exec init (Insert ''TCS'' \<lparr>lotSize = 0, price = 0\<rparr>)) ''TCS'') = (0, 0) \<and>
   fst (getPriceRange (exec init (Insert ''TCS'' \<lparr>lotSize = 0, price = 0\<rparr>)) ''INFY'') = (0, 0)"
proof -
  have hyps: "price ` set (book (exec init (Insert ''TCS'' \<lparr>lotSize = 0, price = 0\<rparr>)) ''TCS'') = {0}"
    "map_m (exec init (Insert ''TCS'' \<lparr>lotSize = 0, price = 0\<rparr>)) ''INFY'' = None"
    by (simp_all add: init_def insert_chm_def book_def)
  show ?thesis
    using zero_quantity_zero_price [of init "''TCS''" 0
        "exec init (Insert ''TCS'' \<lparr>lotSize = 0, price = 0\<rparr>)" "''TCS''" "''INFY''"] hyps
    by (simp add: levels_at_init)
qed

end
